theory Spec2Isabelle
  imports Main
begin

section \<open>Rocklab SaaS backend: organisations, invitations, memberships\<close>

text \<open>
  A shallow embedding of \<^verbatim>\<open>functions/src/index.ts\<close>: the five callable functions
  \<^verbatim>\<open>createOrg\<close>, \<^verbatim>\<open>createInvite\<close>, \<^verbatim>\<open>acceptInvite\<close>, \<^verbatim>\<open>submitOnboarding\<close> and
  \<^verbatim>\<open>approveMember\<close> over the three Firestore collections \<^verbatim>\<open>orgs\<close>,
  \<^verbatim>\<open>orgMembers\<close> and \<^verbatim>\<open>invites\<close>.

  Every function takes the request and the store and returns its result together with
  the store it leaves behind. A thrown \<^verbatim>\<open>HttpsError\<close> is \<open>Inl\<close> of its code. What the
  server chooses (the auto-generated document id, the commit time that
  \<^verbatim>\<open>FieldValue.serverTimestamp()\<close> resolves to) is a parameter of the function.
\<close>

subsection \<open>Documents and the store\<close>

text \<open>
  The documents are the object literals the source writes. Roles and statuses are kept
  as the strings the source stores. A field that only \<^verbatim>\<open>update\<close> adds is optional.
\<close>

record Organization =
  org_id :: string
  org_name :: string
  org_slug :: string
  org_ownerId :: string
  org_createdAt :: nat
  org_status :: string

record Membership =
  mem_orgId :: string
  mem_uid :: string
  mem_email :: string
  mem_role :: string
  mem_status :: string
  mem_joinedAt :: nat
  mem_fullName :: "string option"
  mem_phone :: "string option"
  mem_onboardedAt :: "nat option"
  mem_approvedAt :: "nat option"
  mem_approvedBy :: "string option"

record Invitation =
  inv_orgId :: string
  inv_email :: string
  inv_role :: string
  inv_invitedBy :: string
  inv_status :: string
  inv_createdAt :: nat

text \<open>
  A collection maps the path of a document below the collection, a list of path segments,
  to the document. A document directly in the collection has a path of one segment, its id.
\<close>

record store =
  orgs :: "string list \<rightharpoonup> Organization"
  orgMembers :: "string list \<rightharpoonup> Membership"
  invites :: "string list \<rightharpoonup> Invitation"

definition emptyStore :: store where
  "emptyStore = \<lparr>orgs = Map.empty, orgMembers = Map.empty, invites = Map.empty\<rparr>"

text \<open>The document id of a membership: the template literal \<^verbatim>\<open>`${orgId}_${uid}`\<close>.\<close>

definition memberKey :: "string \<Rightarrow> string \<Rightarrow> string" where
  "memberKey orgId uid = orgId @ ''_'' @ uid"

subsection \<open>Identifiers the platform issues\<close>

text \<open>
  Two kinds of identifier never come from the payload: the uid of \<^verbatim>\<open>request.auth\<close>, issued
  by the identity provider, and the id that \<^verbatim>\<open>doc()\<close> or \<^verbatim>\<open>add()\<close> generates. Both are
  non-empty alphanumeric strings (28 and 20 characters; 128 is the provider's bound).
  Everything the payload carries is an arbitrary string.
\<close>

definition alnum :: "char \<Rightarrow> bool" where
  "alnum c \<longleftrightarrow> c \<in> set ''abcdefghijklmnopqrstuvwxyzABCDEFGHIJKLMNOPQRSTUVWXYZ0123456789''"

definition wellFormedId :: "string \<Rightarrow> bool" where
  "wellFormedId s \<longleftrightarrow> s \<noteq> [] \<and> length s \<le> 128 \<and> list_all alnum s"

typedef ident = "{s. wellFormedId s}"
  morphisms idString Ident
  by (rule exI [of _ "''0''"]) (simp add: wellFormedId_def alnum_def)

setup_lifting type_definition_ident

text \<open>The identifier a well-formed string denotes (and \<open>0\<close> for any other string).\<close>

lift_definition mkIdent :: "string \<Rightarrow> ident" is
  "\<lambda>s. if wellFormedId s then s else ''0''"
  by (simp add: wellFormedId_def alnum_def)

subsection \<open>Requests and errors\<close>

text \<open>
  \<^verbatim>\<open>request.auth\<close> is absent for an unauthenticated call; \<^verbatim>\<open>request.auth.token.email\<close>
  may be absent too.
\<close>

record AuthData =
  auth_uid :: ident
  token_email :: "string option"

record 'd CallableRequest =
  auth :: "AuthData option"
  data :: 'd

record CreateOrgData =
  co_name :: string
  co_slug :: string


record AcceptInviteData =
  ai_inviteId :: string

record OnboardingData =
  ob_orgId :: string
  ob_fullName :: string
  ob_phone :: string

record ApproveMemberData =
  am_orgId :: string
  am_memberId :: string

text \<open>
  The codes of the \<^verbatim>\<open>HttpsError\<close>s the source throws. \<open>Internal\<close> is what a callable
  function answers when its handler fails with anything that is not an \<^verbatim>\<open>HttpsError\<close>:
  a document path that Firestore refuses, or a rejected write.
\<close>

datatype error = Unauthenticated | InvalidArgument | PermissionDenied | NotFound | Internal

subsection \<open>Document paths\<close>

text \<open>
  \<^verbatim>\<open>collection.doc(documentPath)\<close> throws when the path is empty or contains \<^verbatim>\<open>//\<close>.
  Otherwise it splits the path at \<^verbatim>\<open>/\<close>, drops empty segments (a leading or trailing
  slash is allowed) and throws unless an odd number of segments is left, that is, unless
  the path names a document and not a collection. \<open>splitSlash\<close> is
  \<^verbatim>\<open>String.prototype.split('/')\<close>.
\<close>

fun splitSlash :: "string \<Rightarrow> string list" where
  "splitSlash [] = [[]]"
| "splitSlash (c # cs) =
     (if c = CHR ''/'' then [] # splitSlash cs
      else (case splitSlash cs of [] \<Rightarrow> [[c]] | w # ws \<Rightarrow> (c # w) # ws))"

fun hasDoubleSlash :: "string \<Rightarrow> bool" where
  "hasDoubleSlash (a # b # cs) = ((a = CHR ''/'' \<and> b = CHR ''/'') \<or> hasDoubleSlash (b # cs))"
| "hasDoubleSlash cs = False"

text \<open>
  The server in turn refuses a document id that is \<^verbatim>\<open>.\<close> or \<^verbatim>\<open>..\<close>, that matches
  \<^verbatim>\<open>__.*__\<close>, or that is longer than 1500 bytes. Whether \<^verbatim>\<open>doc()\<close> throws or the
  server refuses the operation that follows, the handler fails before anything is read or
  written through that reference, so both are one failure of \<open>fs_doc\<close>.
\<close>

definition reservedId :: "string \<Rightarrow> bool" where
  "reservedId seg \<longleftrightarrow>
     4 \<le> length seg \<and> take 2 seg = ''__'' \<and> drop (length seg - 2) seg = ''__''"

definition validSegment :: "string \<Rightarrow> bool" where
  "validSegment seg \<longleftrightarrow>
     seg \<noteq> ''.'' \<and> seg \<noteq> ''..'' \<and> \<not> reservedId seg \<and> length seg \<le> 1500"

definition fs_doc :: "string \<Rightarrow> string list option" where
  "fs_doc documentPath =
     (if documentPath = '''' \<or> hasDoubleSlash documentPath then None
      else
        let segments = filter (\<lambda>seg. seg \<noteq> '''') (splitSlash documentPath)
        in if odd (length segments) \<and> list_all validSegment segments then Some segments
           else None)"

text \<open>
  The document a path string names in a collection, if the path is accepted and the
  document exists; and the collection with a document put where the path string points.
\<close>

definition docAt :: "(string list \<rightharpoonup> 'a) \<Rightarrow> string \<Rightarrow> 'a option" where
  "docAt c documentPath = (case fs_doc documentPath of None \<Rightarrow> None | Some ref \<Rightarrow> c ref)"

definition putAt :: "(string list \<rightharpoonup> 'a) \<Rightarrow> string \<Rightarrow> 'a \<Rightarrow> (string list \<rightharpoonup> 'a)" where
  "putAt c documentPath d = (case fs_doc documentPath of None \<Rightarrow> c | Some ref \<Rightarrow> c(ref \<mapsto> d))"

subsection \<open>The Firestore operations the source calls\<close>

text \<open>
  On a document reference: \<^verbatim>\<open>set\<close> (without merge) replaces the whole document or creates
  it; \<^verbatim>\<open>update\<close> patches an existing document and is rejected when there is none;
  \<^verbatim>\<open>delete\<close> removes the document and succeeds when there is none. \<^verbatim>\<open>add\<close> creates a
  document under the id the store generates for it.
\<close>

definition fs_set :: "(string list \<rightharpoonup> 'a) \<Rightarrow> string list \<Rightarrow> 'a \<Rightarrow> (string list \<rightharpoonup> 'a)" where
  "fs_set c ref d = c(ref \<mapsto> d)"

definition fs_update ::
  "(string list \<rightharpoonup> 'a) \<Rightarrow> string list \<Rightarrow> ('a \<Rightarrow> 'a) \<Rightarrow> (string list \<rightharpoonup> 'a) option" where
  "fs_update c ref patch = (case c ref of None \<Rightarrow> None | Some d \<Rightarrow> Some (c(ref \<mapsto> patch d)))"

definition fs_delete :: "(string list \<rightharpoonup> 'a) \<Rightarrow> string list \<Rightarrow> (string list \<rightharpoonup> 'a)" where
  "fs_delete c ref = c(ref := None)"


text \<open>\<^verbatim>\<open>['owner', 'admin'].includes(snap.data()?.role)\<close> on a snapshot that exists.\<close>

definition isAdminRole :: "string \<Rightarrow> bool" where
  "isAdminRole r = (r \<in> set [''owner'', ''admin''])"

subsection \<open>1. createOrg\<close>

text \<open>
  \<open>autoId\<close> is the id of \<^verbatim>\<open>db.collection('orgs').doc()\<close>; \<open>t1\<close> and \<open>t2\<close> are the commit
  times of the two writes. \<^verbatim>\<open>!name || !slug\<close> holds for the empty string, and
  \<^verbatim>\<open>token.email || ""\<close> is the empty string when the token has no email.
\<close>

definition orgDoc :: "string \<Rightarrow> string \<Rightarrow> string \<Rightarrow> string \<Rightarrow> nat \<Rightarrow> Organization" where
  "orgDoc orgId name slug uid t =
     \<lparr>org_id = orgId, org_name = name, org_slug = slug, org_ownerId = uid,
      org_createdAt = t, org_status = ''active''\<rparr>"

definition ownerDoc :: "string \<Rightarrow> string \<Rightarrow> string \<Rightarrow> nat \<Rightarrow> Membership" where
  "ownerDoc orgId uid email t =
     \<lparr>mem_orgId = orgId, mem_uid = uid, mem_email = email, mem_role = ''owner'',
      mem_status = ''active'', mem_joinedAt = t, mem_fullName = None, mem_phone = None,
      mem_onboardedAt = None, mem_approvedAt = None, mem_approvedBy = None\<rparr>"

definition createOrg ::
  "CreateOrgData CallableRequest \<Rightarrow> ident \<Rightarrow> nat \<Rightarrow> nat \<Rightarrow> store \<Rightarrow> (error + string) \<times> store" where
  "createOrg request autoId t1 t2 s =
     (case auth request of
        None \<Rightarrow> (Inl Unauthenticated, s)
      | Some a \<Rightarrow>
          let name = co_name (data request);
              slug = co_slug (data request);
              uid = idString (auth_uid a);
              email = (case token_email a of None \<Rightarrow> '''' | Some e \<Rightarrow> e)
          in if name = '''' \<or> slug = '''' then (Inl InvalidArgument, s)
             else
               let orgId = idString autoId;
                   s1 = s\<lparr>orgs := fs_set (orgs s) [orgId] (orgDoc orgId name slug uid t1)\<rparr>
               in (case fs_doc (memberKey orgId uid) of
                     None \<Rightarrow> (Inl Internal, s1)
                   | Some memberRef \<Rightarrow>
                       (Inr orgId,
                        s1\<lparr>orgMembers :=
                             fs_set (orgMembers s1) memberRef (ownerDoc orgId uid email t2)\<rparr>)))"

subsection \<open>2. createInvite\<close>

definition inviteDoc :: "string \<Rightarrow> string \<Rightarrow> string \<Rightarrow> string \<Rightarrow> nat \<Rightarrow> Invitation" where
  "inviteDoc orgId email role by t =
     \<lparr>inv_orgId = orgId, inv_email = email, inv_role = role, inv_invitedBy = by,
      inv_status = ''pending'', inv_createdAt = t\<rparr>"


subsection \<open>3. acceptInvite\<close>

text \<open>
  \<^verbatim>\<open>inviteData?.email !== email\<close> compares the invitation's email, a string, with the
  token's email, which may be absent: an absent email differs from every string.
\<close>

definition memberDoc :: "Invitation \<Rightarrow> string \<Rightarrow> string \<Rightarrow> nat \<Rightarrow> Membership" where
  "memberDoc inviteData uid email t =
     \<lparr>mem_orgId = inv_orgId inviteData, mem_uid = uid, mem_email = email,
      mem_role = inv_role inviteData, mem_status = ''pending_onboarding'', mem_joinedAt = t,
      mem_fullName = None, mem_phone = None, mem_onboardedAt = None, mem_approvedAt = None,
      mem_approvedBy = None\<rparr>"

definition acceptInvite ::
  "AcceptInviteData CallableRequest \<Rightarrow> nat \<Rightarrow> store \<Rightarrow> (error + string) \<times> store" where
  "acceptInvite request t s =
     (case auth request of
        None \<Rightarrow> (Inl Unauthenticated, s)
      | Some a \<Rightarrow>
          let inviteId = ai_inviteId (data request);
              uid = idString (auth_uid a)
          in (case fs_doc inviteId of
                None \<Rightarrow> (Inl Internal, s)
              | Some inviteRef \<Rightarrow>
                  (case invites s inviteRef of
                     None \<Rightarrow> (Inl NotFound, s)
                   | Some inviteData \<Rightarrow>
                       (case token_email a of
                          None \<Rightarrow> (Inl PermissionDenied, s)
                        | Some email \<Rightarrow>
                            if inv_email inviteData \<noteq> email then (Inl PermissionDenied, s)
                            else
                              (case fs_doc (memberKey (inv_orgId inviteData) uid) of
                                 None \<Rightarrow> (Inl Internal, s)
                               | Some memberRef \<Rightarrow>
                                   let s1 = s\<lparr>orgMembers :=
                                              fs_set (orgMembers s) memberRef
                                                (memberDoc inviteData uid email t)\<rparr>;
                                       s2 = s1\<lparr>invites := fs_delete (invites s1) inviteRef\<rparr>
                                   in (Inr (inv_orgId inviteData), s2))))))"

subsection \<open>4. submitOnboarding\<close>

definition onboardingPatch :: "string \<Rightarrow> string \<Rightarrow> nat \<Rightarrow> Membership \<Rightarrow> Membership" where
  "onboardingPatch fullName phone t m =
     m\<lparr>mem_fullName := Some fullName, mem_phone := Some phone, mem_status := ''active'',
       mem_onboardedAt := Some t\<rparr>"

definition submitOnboarding ::
  "OnboardingData CallableRequest \<Rightarrow> nat \<Rightarrow> store \<Rightarrow> (error + unit) \<times> store" where
  "submitOnboarding request t s =
     (case auth request of
        None \<Rightarrow> (Inl Unauthenticated, s)
      | Some a \<Rightarrow>
          let orgId = ob_orgId (data request);
              fullName = ob_fullName (data request);
              phone = ob_phone (data request);
              uid = idString (auth_uid a)
          in (case fs_doc (memberKey orgId uid) of
                None \<Rightarrow> (Inl Internal, s)
              | Some memberRef \<Rightarrow>
                  (case orgMembers s memberRef of
                     None \<Rightarrow> (Inl PermissionDenied, s)
                   | Some memberSnap \<Rightarrow>
                       (case fs_update (orgMembers s) memberRef
                               (onboardingPatch fullName phone t) of
                          None \<Rightarrow> (Inl Internal, s)
                        | Some c \<Rightarrow> (Inr (), s\<lparr>orgMembers := c\<rparr>)))))"

subsection \<open>5. approveMember\<close>

definition approvalPatch :: "nat \<Rightarrow> string \<Rightarrow> Membership \<Rightarrow> Membership" where
  "approvalPatch t approver m =
     m\<lparr>mem_status := ''active'', mem_approvedAt := Some t, mem_approvedBy := Some approver\<rparr>"

definition approveMember ::
  "ApproveMemberData CallableRequest \<Rightarrow> nat \<Rightarrow> store \<Rightarrow> (error + unit) \<times> store" where
  "approveMember request t s =
     (case auth request of
        None \<Rightarrow> (Inl Unauthenticated, s)
      | Some a \<Rightarrow>
          let orgId = am_orgId (data request);
              memberId = am_memberId (data request);
              uid = idString (auth_uid a)
          in (case fs_doc (memberKey orgId uid) of
                None \<Rightarrow> (Inl Internal, s)
              | Some requesterRef \<Rightarrow>
                  (case orgMembers s requesterRef of
                     None \<Rightarrow> (Inl PermissionDenied, s)
                   | Some requesterSnap \<Rightarrow>
                       if \<not> isAdminRole (mem_role requesterSnap) then (Inl PermissionDenied, s)
                       else
                         (case fs_doc (memberKey orgId memberId) of
                            None \<Rightarrow> (Inl Internal, s)
                          | Some memberRef \<Rightarrow>
                              (case fs_update (orgMembers s) memberRef
                                      (approvalPatch t uid) of
                                 None \<Rightarrow> (Inl Internal, s)
                               | Some c \<Rightarrow> (Inr (), s\<lparr>orgMembers := c\<rparr>))))))"

subsection \<open>The store operations of a call, one at a time\<close>

text \<open>
  The source has no transaction and no batch: every \<^verbatim>\<open>await\<close> on a Firestore call is a
  store operation of its own, and other calls (or a crash) can fall between two of them.
  The two functions that write twice are therefore also given as step functions, one step
  per awaited store operation, with the local checks attached to the operation they
  precede. The program counter holds what the call keeps in local variables.
\<close>

datatype co_pc = CO_Start | CO_OrgWritten | CO_Done "error + string"

fun createOrg_step ::
  "CreateOrgData CallableRequest \<Rightarrow> ident \<Rightarrow> nat \<Rightarrow> nat \<Rightarrow> co_pc \<times> store \<Rightarrow> co_pc \<times> store" where
  "createOrg_step request autoId t1 t2 (CO_Start, s) =
     (case auth request of
        None \<Rightarrow> (CO_Done (Inl Unauthenticated), s)
      | Some a \<Rightarrow>
          if co_name (data request) = '''' \<or> co_slug (data request) = ''''
          then (CO_Done (Inl InvalidArgument), s)
          else (CO_OrgWritten,
                s\<lparr>orgs := fs_set (orgs s) [idString autoId]
                   (orgDoc (idString autoId) (co_name (data request)) (co_slug (data request))
                      (idString (auth_uid a)) t1)\<rparr>))"
| "createOrg_step request autoId t1 t2 (CO_OrgWritten, s) =
     (case auth request of
        None \<Rightarrow> (CO_Done (Inl Unauthenticated), s)
      | Some a \<Rightarrow>
          (case fs_doc (memberKey (idString autoId) (idString (auth_uid a))) of
             None \<Rightarrow> (CO_Done (Inl Internal), s)
           | Some memberRef \<Rightarrow>
               (CO_Done (Inr (idString autoId)),
                s\<lparr>orgMembers := fs_set (orgMembers s) memberRef
                   (ownerDoc (idString autoId) (idString (auth_uid a))
                      (case token_email a of None \<Rightarrow> '''' | Some e \<Rightarrow> e) t2)\<rparr>)))"
| "createOrg_step request autoId t1 t2 (CO_Done r, s) = (CO_Done r, s)"

datatype ai_pc = AI_Start | AI_Fetched "string list" "Invitation option"
  | AI_MemberWritten "string list" Invitation | AI_Done "error + string"

fun acceptInvite_step ::
  "AcceptInviteData CallableRequest \<Rightarrow> nat \<Rightarrow> ai_pc \<times> store \<Rightarrow> ai_pc \<times> store" where
  "acceptInvite_step request t (AI_Start, s) =
     (case auth request of
        None \<Rightarrow> (AI_Done (Inl Unauthenticated), s)
      | Some a \<Rightarrow>
          (case fs_doc (ai_inviteId (data request)) of
             None \<Rightarrow> (AI_Done (Inl Internal), s)
           | Some inviteRef \<Rightarrow> (AI_Fetched inviteRef (invites s inviteRef), s)))"
| "acceptInvite_step request t (AI_Fetched inviteRef inviteSnap, s) =
     (case auth request of
        None \<Rightarrow> (AI_Done (Inl Unauthenticated), s)
      | Some a \<Rightarrow>
          (case inviteSnap of
             None \<Rightarrow> (AI_Done (Inl NotFound), s)
           | Some inviteData \<Rightarrow>
               (case token_email a of
                  None \<Rightarrow> (AI_Done (Inl PermissionDenied), s)
                | Some email \<Rightarrow>
                    if inv_email inviteData \<noteq> email then (AI_Done (Inl PermissionDenied), s)
                    else
                      (case fs_doc (memberKey (inv_orgId inviteData) (idString (auth_uid a))) of
                         None \<Rightarrow> (AI_Done (Inl Internal), s)
                       | Some memberRef \<Rightarrow>
                           (AI_MemberWritten inviteRef inviteData,
                            s\<lparr>orgMembers :=
                               fs_set (orgMembers s) memberRef
                                 (memberDoc inviteData (idString (auth_uid a)) email t)\<rparr>)))))"
| "acceptInvite_step request t (AI_MemberWritten inviteRef inviteData, s) =
     (AI_Done (Inr (inv_orgId inviteData)), s\<lparr>invites := fs_delete (invites s) inviteRef\<rparr>)"
| "acceptInvite_step request t (AI_Done r, s) = (AI_Done r, s)"

text \<open>
  Two calls of \<^verbatim>\<open>acceptInvite\<close> in flight on one store: the schedule says which call
  performs its next store operation.
\<close>

datatype caller = CallA | CallB

fun acceptInvite_interleaved ::
  "AcceptInviteData CallableRequest \<times> nat \<Rightarrow> AcceptInviteData CallableRequest \<times> nat \<Rightarrow>
   caller list \<Rightarrow> ai_pc \<times> ai_pc \<times> store \<Rightarrow> ai_pc \<times> ai_pc \<times> store" where
  "acceptInvite_interleaved ca cb [] cfg = cfg"
| "acceptInvite_interleaved ca cb (CallA # sched) (pa, pb, s) =
     (case acceptInvite_step (fst ca) (snd ca) (pa, s) of
        (pa', s') \<Rightarrow> acceptInvite_interleaved ca cb sched (pa', pb, s'))"
| "acceptInvite_interleaved ca cb (CallB # sched) (pa, pb, s) =
     (case acceptInvite_step (fst cb) (snd cb) (pb, s) of
        (pb', s') \<Rightarrow> acceptInvite_interleaved ca cb sched (pa, pb', s'))"

subsection \<open>Reachable stores\<close>


subsection \<open>A scenario\<close>

text \<open>
  The identities, requests and stores of the end-to-end scenario: \<open>U1\<close> founds the
  organisation \<open>O1\<close> and invites \<open>b@x.com\<close> as staff; \<open>U2\<close> owns that address.
\<close>

definition U1 :: AuthData where
  "U1 = \<lparr>auth_uid = mkIdent ''U1'', token_email = Some ''a@x.com''\<rparr>"

definition U2 :: AuthData where
  "U2 = \<lparr>auth_uid = mkIdent ''U2'', token_email = Some ''b@x.com''\<rparr>"

definition U3 :: AuthData where
  "U3 = \<lparr>auth_uid = mkIdent ''U3'', token_email = Some ''c@x.com''\<rparr>"

definition createAcme :: "CreateOrgData CallableRequest" where
  "createAcme = \<lparr>auth = Some U1, data = \<lparr>co_name = ''Acme'', co_slug = ''acme''\<rparr>\<rparr>"


definition acceptI1 :: "AuthData \<Rightarrow> AcceptInviteData CallableRequest" where
  "acceptI1 who = \<lparr>auth = Some who, data = \<lparr>ai_inviteId = ''I1''\<rparr>\<rparr>"

definition onboard :: "string \<Rightarrow> OnboardingData CallableRequest" where
  "onboard orgId = \<lparr>auth = Some U2,
     data = \<lparr>ob_orgId = orgId, ob_fullName = ''Bob'', ob_phone = ''555-1234''\<rparr>\<rparr>"

definition approve :: "AuthData \<Rightarrow> string \<Rightarrow> ApproveMemberData CallableRequest" where
  "approve who memberId = \<lparr>auth = Some who, data = \<lparr>am_orgId = ''O1'', am_memberId = memberId\<rparr>\<rparr>"

text \<open>The store after \<open>createAcme\<close>, and the store after \<open>U1\<close>'s staff invitation on top of it.\<close>

definition storeAcme :: store where
  "storeAcme =
     \<lparr>orgs = [[''O1''] \<mapsto> orgDoc ''O1'' ''Acme'' ''acme'' ''U1'' 1],
      orgMembers = [[''O1_U1''] \<mapsto> ownerDoc ''O1'' ''U1'' ''a@x.com'' 2],
      invites = Map.empty\<rparr>"

definition storeInvited :: store where
  "storeInvited =
     storeAcme\<lparr>invites := [[''I1''] \<mapsto> inviteDoc ''O1'' ''b@x.com'' ''staff'' ''U1'' 3]\<rparr>"

text \<open>
  The store after \<open>U2\<close> has accepted the invitation \<open>I1\<close>, and the store after \<open>U2\<close> has
  then submitted the onboarding form; \<open>bobOnboarded\<close> is the membership of \<open>U2\<close> in the
  latter.
\<close>

definition storeAccepted :: store where
  "storeAccepted =
     storeAcme\<lparr>orgMembers :=
       [[''O1_U1''] \<mapsto> ownerDoc ''O1'' ''U1'' ''a@x.com'' 2,
        [''O1_U2''] \<mapsto> memberDoc (inviteDoc ''O1'' ''b@x.com'' ''staff'' ''U1'' 3) ''U2'' ''b@x.com'' 4]\<rparr>"

definition storeOnboarded :: store where
  "storeOnboarded =
     storeAcme\<lparr>orgMembers :=
       [[''O1_U1''] \<mapsto> ownerDoc ''O1'' ''U1'' ''a@x.com'' 2,
        [''O1_U2''] \<mapsto> onboardingPatch ''Bob'' ''555-1234'' 5
           (memberDoc (inviteDoc ''O1'' ''b@x.com'' ''staff'' ''U1'' 3) ''U2'' ''b@x.com'' 4)]\<rparr>"

definition bobOnboarded :: Membership where
  "bobOnboarded =
     \<lparr>mem_orgId = ''O1'', mem_uid = ''U2'', mem_email = ''b@x.com'', mem_role = ''staff'',
      mem_status = ''active'', mem_joinedAt = 4, mem_fullName = Some ''Bob'',
      mem_phone = Some ''555-1234'', mem_onboardedAt = Some 5, mem_approvedAt = None,
      mem_approvedBy = None\<rparr>"

text \<open>
  A second situation: the owner \<open>U1\<close> of \<open>O1\<close> is the addressee of a staff invitation
  \<open>I2\<close> to \<open>O1\<close>.
\<close>

definition storeSelfInvite :: store where
  "storeSelfInvite =
     storeAcme\<lparr>invites := [[''I2''] \<mapsto> inviteDoc ''O1'' ''a@x.com'' ''staff'' ''U1'' 3]\<rparr>"

definition acceptI2 :: "AcceptInviteData CallableRequest" where
  "acceptI2 = \<lparr>auth = Some U1, data = \<lparr>ai_inviteId = ''I2''\<rparr>\<rparr>"



subsection \<open>The role invariant\<close>


section \<open>Properties\<close>

subsection \<open>Paths of identifiers\<close>

lemma splitSlash_plain: "CHR ''/'' \<notin> set s \<Longrightarrow> splitSlash s = [s]"
  by (induction s) auto

lemma hasDoubleSlash_plain: "CHR ''/'' \<notin> set s \<Longrightarrow> \<not> hasDoubleSlash s"
  by (induction s rule: hasDoubleSlash.induct) auto

lemma fs_doc_plain:
  "s \<noteq> [] \<Longrightarrow> CHR ''/'' \<notin> set s \<Longrightarrow> validSegment s \<Longrightarrow> fs_doc s = Some [s]"
  by (simp add: fs_doc_def splitSlash_plain hasDoubleSlash_plain)

lemma alnum_plain: "alnum c \<Longrightarrow> c \<noteq> CHR ''/'' \<and> c \<noteq> CHR ''_'' \<and> c \<noteq> CHR ''.''"
  by (auto simp: alnum_def)

lemma idString_wellFormed: "wellFormedId (idString x)"
  using idString [of x] by simp

lemma memberKey_ident_path:
  "fs_doc (memberKey (idString x) (idString y)) = Some [memberKey (idString x) (idString y)]"
proof -
  let ?a = "idString x" and ?b = "idString y"
  have wa: "?a \<noteq> []" "length ?a \<le> 128" "list_all alnum ?a"
    and wb: "?b \<noteq> []" "length ?b \<le> 128" "list_all alnum ?b"
    using idString_wellFormed [of x] idString_wellFormed [of y] by (simp_all add: wellFormedId_def)
  have noslash: "CHR ''/'' \<notin> set (memberKey ?a ?b)"
    using wa(3) wb(3) alnum_plain by (auto simp: memberKey_def list_all_iff)
  obtain c cs where a: "?a = c # cs" and c: "alnum c"
    using wa(1,3) by (cases ?a) auto
  have "validSegment (memberKey ?a ?b)"
    using wa(2) wb(2) c alnum_plain [of c]
    by (auto simp: validSegment_def reservedId_def memberKey_def a)
  with noslash show ?thesis
    by (simp add: fs_doc_plain memberKey_def)
qed


subsection \<open>The scenario, run\<close>

lemma scenario_ids [simp]:
  "idString (mkIdent ''U1'') = ''U1''"
  "idString (mkIdent ''U2'') = ''U2''"
  "idString (mkIdent ''U3'') = ''U3''"
  "idString (mkIdent ''O1'') = ''O1''"
  "idString (mkIdent ''I1'') = ''I1''"
  by (simp_all add: mkIdent.rep_eq wellFormedId_def alnum_def)

lemma scenario_paths [simp]:
  "fs_doc ''I1'' = Some [''I1'']"
  "fs_doc ''I2'' = Some [''I2'']"
  "fs_doc ''O1'' = Some [''O1'']"
  "fs_doc ''O1_U1'' = Some [''O1_U1'']"
  "fs_doc ''O1_U2'' = Some [''O1_U2'']"
  "fs_doc ''O1_U3'' = Some [''O1_U3'']"
  "fs_doc ''O1_U9'' = Some [''O1_U9'']"
  "fs_doc ''O1/x_U1'' = None"
  "fs_doc ''O1/x_U2'' = None"
  "fs_doc ''O1/x_U3'' = None"
  by (simp_all add: fs_doc_def validSegment_def reservedId_def)



lemma run_acceptI1: "acceptInvite (acceptI1 U2) 4 storeInvited = (Inr ''O1'', storeAccepted)"
  by (simp add: acceptInvite_def acceptI1_def U2_def storeInvited_def storeAcme_def storeAccepted_def
      fs_set_def fs_delete_def memberKey_def inviteDoc_def Let_def)

lemma run_onboardBob: "submitOnboarding (onboard ''O1'') 5 storeAccepted = (Inr (), storeOnboarded)"
  by (simp add: submitOnboarding_def onboard_def U2_def storeAccepted_def storeOnboarded_def
      storeAcme_def fs_update_def memberKey_def Let_def)

lemma storeOnboarded_bob: "orgMembers storeOnboarded [''O1_U2''] = Some bobOnboarded"
  by (simp add: storeOnboarded_def bobOnboarded_def onboardingPatch_def memberDoc_def inviteDoc_def)



subsection \<open>The step functions compute the functions\<close>

lemma createOrg_steps:
  "createOrg_step request autoId t1 t2 (createOrg_step request autoId t1 t2 (CO_Start, s))
     = (CO_Done (fst (createOrg request autoId t1 t2 s)), snd (createOrg request autoId t1 t2 s))"
  by (simp add: createOrg_def Let_def split: option.splits)

lemma acceptInvite_steps:
  "acceptInvite_step request t (acceptInvite_step request t (acceptInvite_step request t (AI_Start, s)))
     = (AI_Done (fst (acceptInvite request t s)), snd (acceptInvite request t s))"
  by (simp add: acceptInvite_def Let_def split: option.splits)

subsection \<open>createOrg\<close>



text \<open>
  Claim C2, as the source has it. \<open>createOrg\<close> writes twice, and the two writes are two store
  operations: the first puts the Organization and leaves \<open>orgMembers\<close> alone, the second
  puts the owner Membership. A call that runs both ends with the Organization and its
  owner Membership in the store, and the Membership is never written before the
  Organization.
\<close>

theorem createOrg_two_writes:
  assumes "auth request = Some a"
    and "co_name (data request) \<noteq> ''''"
    and "co_slug (data request) \<noteq> ''''"
  shows "createOrg_step request autoId t1 t2 (CO_Start, s)
           = (CO_OrgWritten,
              s\<lparr>orgs := (orgs s)([idString autoId] \<mapsto>
                   orgDoc (idString autoId) (co_name (data request)) (co_slug (data request))
                     (idString (auth_uid a)) t1)\<rparr>)
       \<and> createOrg_step request autoId t1 t2
            (CO_OrgWritten,
             s\<lparr>orgs := (orgs s)([idString autoId] \<mapsto>
                  orgDoc (idString autoId) (co_name (data request)) (co_slug (data request))
                    (idString (auth_uid a)) t1)\<rparr>)
           = (CO_Done (Inr (idString autoId)),
              s\<lparr>orgs := (orgs s)([idString autoId] \<mapsto>
                   orgDoc (idString autoId) (co_name (data request)) (co_slug (data request))
                     (idString (auth_uid a)) t1),
                orgMembers := (orgMembers s)
                  ([memberKey (idString autoId) (idString (auth_uid a))] \<mapsto>
                   ownerDoc (idString autoId) (idString (auth_uid a))
                     (case token_email a of None \<Rightarrow> '''' | Some e \<Rightarrow> e) t2)\<rparr>)
       \<and> createOrg request autoId t1 t2 s
           = (Inr (idString autoId),
              s\<lparr>orgs := (orgs s)([idString autoId] \<mapsto>
                   orgDoc (idString autoId) (co_name (data request)) (co_slug (data request))
                     (idString (auth_uid a)) t1),
                orgMembers := (orgMembers s)
                  ([memberKey (idString autoId) (idString (auth_uid a))] \<mapsto>
                   ownerDoc (idString autoId) (idString (auth_uid a))
                     (case token_email a of None \<Rightarrow> '''' | Some e \<Rightarrow> e) t2)\<rparr>)"
  using assms by (simp add: createOrg_def memberKey_ident_path fs_set_def Let_def)

theorem createOrg_two_writes_witness:
  "auth createAcme = Some U1 \<and> co_name (data createAcme) \<noteq> '''' \<and> co_slug (data createAcme) \<noteq> ''''
   \<and> createOrg_step createAcme (mkIdent ''O1'') 1 2 (CO_Start, emptyStore)
        = (CO_OrgWritten, emptyStore\<lparr>orgs := [[''O1''] \<mapsto> orgDoc ''O1'' ''Acme'' ''acme'' ''U1'' 1]\<rparr>)
   \<and> createOrg_step createAcme (mkIdent ''O1'') 1 2
        (CO_OrgWritten, emptyStore\<lparr>orgs := [[''O1''] \<mapsto> orgDoc ''O1'' ''Acme'' ''acme'' ''U1'' 1]\<rparr>)
        = (CO_Done (Inr ''O1''), storeAcme)
   \<and> createOrg createAcme (mkIdent ''O1'') 1 2 emptyStore = (Inr ''O1'', storeAcme)"
proof -
  have h: "auth createAcme = Some U1" "co_name (data createAcme) \<noteq> ''''" "co_slug (data createAcme) \<noteq> ''''"
    by (simp_all add: createAcme_def)
  from createOrg_two_writes [OF h, of "mkIdent ''O1''" 1 2 emptyStore] h
  show ?thesis
    by (simp add: createAcme_def U1_def emptyStore_def storeAcme_def memberKey_def)
qed

text \<open>
  The two writes are not one atomic unit. After the first store operation of
  \<open>createAcme\<close> on the empty store, the Organization \<open>O1\<close> is in the store and its owner
  Membership is not: a reader, or a crash, at this point sees the one without the other.
\<close>

theorem createOrg_first_write_counterexample:
  "createOrg_step createAcme (mkIdent ''O1'') 1 2 (CO_Start, emptyStore)
     = (CO_OrgWritten, emptyStore\<lparr>orgs := [[''O1''] \<mapsto> orgDoc ''O1'' ''Acme'' ''acme'' ''U1'' 1]\<rparr>)
   \<and> docAt (orgs (emptyStore\<lparr>orgs := [[''O1''] \<mapsto> orgDoc ''O1'' ''Acme'' ''acme'' ''U1'' 1]\<rparr>)) ''O1''
       = Some (orgDoc ''O1'' ''Acme'' ''acme'' ''U1'' 1)
   \<and> docAt (orgMembers (emptyStore\<lparr>orgs := [[''O1''] \<mapsto> orgDoc ''O1'' ''Acme'' ''acme'' ''U1'' 1]\<rparr>))
        (memberKey ''O1'' ''U1'') = None"
  by (simp add: createAcme_def U1_def emptyStore_def fs_set_def docAt_def memberKey_def)

subsection \<open>createInvite\<close>




subsection \<open>acceptInvite\<close>

text \<open>
  Claim C6. When the invitation exists and its email differs from the email in the caller's
  token (an absent email differs from every address), \<open>acceptInvite\<close> fails with
  \<open>PermissionDenied\<close> and the store is left as it was: the Invitation is still there and
  no Membership has been created.
\<close>

theorem acceptInvite_email_mismatch:
  assumes "auth request = Some a"
    and "docAt (invites s) (ai_inviteId (data request)) = Some inviteData"
    and "token_email a \<noteq> Some (inv_email inviteData)"
  shows "acceptInvite request t s = (Inl PermissionDenied, s)"
  using assms by (auto simp: acceptInvite_def docAt_def Let_def split: option.splits)

theorem acceptInvite_email_mismatch_witness:
  "auth (acceptI1 U3) = Some U3
   \<and> docAt (invites storeInvited) (ai_inviteId (data (acceptI1 U3)))
       = Some (inviteDoc ''O1'' ''b@x.com'' ''staff'' ''U1'' 3)
   \<and> token_email U3 \<noteq> Some (inv_email (inviteDoc ''O1'' ''b@x.com'' ''staff'' ''U1'' 3))
   \<and> acceptInvite (acceptI1 U3) 4 storeInvited = (Inl PermissionDenied, storeInvited)"
proof -
  have a: "auth (acceptI1 U3) = Some U3"
    by (simp add: acceptI1_def)
  have b: "docAt (invites storeInvited) (ai_inviteId (data (acceptI1 U3)))
             = Some (inviteDoc ''O1'' ''b@x.com'' ''staff'' ''U1'' 3)"
    by (simp add: acceptI1_def storeInvited_def docAt_def)
  have c: "token_email U3 \<noteq> Some (inv_email (inviteDoc ''O1'' ''b@x.com'' ''staff'' ''U1'' 3))"
    by (simp add: U3_def inviteDoc_def)
  from acceptInvite_email_mismatch [OF a b c, of 4] a b c show ?thesis
    by simp
qed

text \<open>
  Claim C10. When the caller already holds a Membership \<open>(orgId, uid)\<close> in the invitation's
  organization, a successful \<open>acceptInvite\<close> replaces that whole document: what is stored
  afterwards is the fresh document with the invitation's role and status
  \<open>pending_onboarding\<close>, whatever the old document held. The owner \<open>U1\<close> of \<open>O1\<close> who accepts
  the staff invitation \<open>I2\<close> ends as staff, pending onboarding.
\<close>

theorem acceptInvite_replaces_membership:
  assumes "auth request = Some a"
    and "docAt (invites s) (ai_inviteId (data request)) = Some inviteData"
    and "token_email a = Some (inv_email inviteData)"
    and "docAt (orgMembers s) (memberKey (inv_orgId inviteData) (idString (auth_uid a))) = Some old"
  shows "fst (acceptInvite request t s) = Inr (inv_orgId inviteData)
       \<and> docAt (orgMembers (snd (acceptInvite request t s)))
           (memberKey (inv_orgId inviteData) (idString (auth_uid a))) =
           Some \<lparr>mem_orgId = inv_orgId inviteData, mem_uid = idString (auth_uid a),
                 mem_email = inv_email inviteData, mem_role = inv_role inviteData,
                 mem_status = ''pending_onboarding'', mem_joinedAt = t,
                 mem_fullName = None, mem_phone = None, mem_onboardedAt = None,
                 mem_approvedAt = None, mem_approvedBy = None\<rparr>"
  using assms
  by (auto simp: acceptInvite_def docAt_def fs_set_def fs_delete_def memberDoc_def Let_def
      split: option.splits)

theorem acceptInvite_replaces_membership_witness:
  "auth acceptI2 = Some U1
   \<and> docAt (invites storeSelfInvite) (ai_inviteId (data acceptI2))
       = Some (inviteDoc ''O1'' ''a@x.com'' ''staff'' ''U1'' 3)
   \<and> token_email U1 = Some (inv_email (inviteDoc ''O1'' ''a@x.com'' ''staff'' ''U1'' 3))
   \<and> docAt (orgMembers storeSelfInvite) ''O1_U1'' = Some (ownerDoc ''O1'' ''U1'' ''a@x.com'' 2)
   \<and> mem_role (ownerDoc ''O1'' ''U1'' ''a@x.com'' 2) = ''owner''
   \<and> mem_status (ownerDoc ''O1'' ''U1'' ''a@x.com'' 2) = ''active''
   \<and> fst (acceptInvite acceptI2 7 storeSelfInvite) = Inr ''O1''
   \<and> docAt (orgMembers (snd (acceptInvite acceptI2 7 storeSelfInvite))) ''O1_U1'' =
        Some \<lparr>mem_orgId = ''O1'', mem_uid = ''U1'', mem_email = ''a@x.com'', mem_role = ''staff'',
              mem_status = ''pending_onboarding'', mem_joinedAt = 7,
              mem_fullName = None, mem_phone = None, mem_onboardedAt = None,
              mem_approvedAt = None, mem_approvedBy = None\<rparr>"
proof -
  let ?inv = "inviteDoc ''O1'' ''a@x.com'' ''staff'' ''U1'' 3"
  have a: "auth acceptI2 = Some U1"
    by (simp add: acceptI2_def)
  have b: "docAt (invites storeSelfInvite) (ai_inviteId (data acceptI2)) = Some ?inv"
    by (simp add: acceptI2_def storeSelfInvite_def docAt_def)
  have c: "token_email U1 = Some (inv_email ?inv)"
    by (simp add: U1_def inviteDoc_def)
  have d: "docAt (orgMembers storeSelfInvite) (memberKey (inv_orgId ?inv) (idString (auth_uid U1)))
             = Some (ownerDoc ''O1'' ''U1'' ''a@x.com'' 2)"
    by (simp add: storeSelfInvite_def storeAcme_def memberKey_def inviteDoc_def U1_def docAt_def)
  have e: "memberKey (inv_orgId ?inv) (idString (auth_uid U1)) = ''O1_U1''"
    by (simp add: memberKey_def inviteDoc_def U1_def)
  have f: "mem_role (ownerDoc ''O1'' ''U1'' ''a@x.com'' 2) = ''owner''
         \<and> mem_status (ownerDoc ''O1'' ''U1'' ''a@x.com'' 2) = ''active''"
    by (simp add: ownerDoc_def)
  from acceptInvite_replaces_membership [OF a b c d, of 7] a b c d e f show ?thesis
    by (simp add: inviteDoc_def U1_def)
qed

text \<open>
  Claim C1, as the source has it. When calls on one \<open>inviteId\<close> run one after the other, a
  successful \<open>acceptInvite\<close> consumes the invitation once: it found the invitation with
  the caller's email, the store afterwards holds the fresh Membership \<open>(orgId, callerUid)\<close>
  with the invitation's role and status \<open>pending_onboarding\<close>, no other membership has
  changed, the Invitation is gone, and every later call on that \<open>inviteId\<close> (or on another
  spelling of the same path) by an authenticated caller fails with \<open>NotFound\<close> and changes
  nothing.
\<close>

theorem acceptInvite_consumes_sequentially:
  assumes "acceptInvite request t s = (Inr orgId, s')"
  shows "docAt (invites s') (ai_inviteId (data request)) = None
       \<and> (\<exists>a inviteData.
             auth request = Some a
           \<and> docAt (invites s) (ai_inviteId (data request)) = Some inviteData
           \<and> token_email a = Some (inv_email inviteData)
           \<and> orgId = inv_orgId inviteData
           \<and> docAt (orgMembers s') (memberKey orgId (idString (auth_uid a))) =
               Some \<lparr>mem_orgId = orgId, mem_uid = idString (auth_uid a),
                     mem_email = inv_email inviteData, mem_role = inv_role inviteData,
                     mem_status = ''pending_onboarding'', mem_joinedAt = t,
                     mem_fullName = None, mem_phone = None, mem_onboardedAt = None,
                     mem_approvedAt = None, mem_approvedBy = None\<rparr>
           \<and> (\<forall>p. fs_doc (memberKey orgId (idString (auth_uid a))) \<noteq> Some p
                  \<longrightarrow> orgMembers s' p = orgMembers s p))
       \<and> (\<forall>request' t'. auth request' \<noteq> None
             \<and> fs_doc (ai_inviteId (data request')) = fs_doc (ai_inviteId (data request))
           \<longrightarrow> acceptInvite request' t' s' = (Inl NotFound, s'))"
proof -
  from assms obtain a inviteRef inviteData memberRef where a: "auth request = Some a"
    and r: "fs_doc (ai_inviteId (data request)) = Some inviteRef"
    and i: "invites s inviteRef = Some inviteData"
    and e: "token_email a = Some (inv_email inviteData)"
    and m: "fs_doc (memberKey (inv_orgId inviteData) (idString (auth_uid a))) = Some memberRef"
    by (auto simp: acceptInvite_def Let_def split: option.splits if_splits)
  from assms a r i e m have o: "orgId = inv_orgId inviteData"
    and s': "s' = s\<lparr>orgMembers := (orgMembers s)(memberRef \<mapsto>
                       memberDoc inviteData (idString (auth_uid a)) (inv_email inviteData) t),
                    invites := (invites s)(inviteRef := None)\<rparr>"
    by (auto simp: acceptInvite_def Let_def fs_set_def fs_delete_def)
  have gone: "invites s' inviteRef = None"
    by (simp add: s')
  have later: "acceptInvite request' t' s' = (Inl NotFound, s')"
    if "auth request' \<noteq> None"
      "fs_doc (ai_inviteId (data request')) = fs_doc (ai_inviteId (data request))"
    for request' t'
    using that gone r by (auto simp: acceptInvite_def Let_def)
  from a r i e m o gone later show ?thesis
    by (auto simp: s' memberDoc_def docAt_def)
qed

theorem acceptInvite_consumes_sequentially_witness:
  "acceptInvite (acceptI1 U2) 4 storeInvited = (Inr ''O1'', storeAccepted)
   \<and> docAt (invites storeAccepted) ''I1'' = None
   \<and> docAt (orgMembers storeAccepted) ''O1_U2'' =
       Some \<lparr>mem_orgId = ''O1'', mem_uid = ''U2'', mem_email = ''b@x.com'', mem_role = ''staff'',
             mem_status = ''pending_onboarding'', mem_joinedAt = 4,
             mem_fullName = None, mem_phone = None, mem_onboardedAt = None,
             mem_approvedAt = None, mem_approvedBy = None\<rparr>
   \<and> acceptInvite (acceptI1 U2) 5 storeAccepted = (Inl NotFound, storeAccepted)"
proof -
  note c = acceptInvite_consumes_sequentially [OF run_acceptI1]
  have 1: "docAt (invites storeAccepted) ''I1'' = None"
    using c by (simp add: acceptI1_def)
  have 2: "acceptInvite (acceptI1 U2) 5 storeAccepted = (Inl NotFound, storeAccepted)"
    using c by (simp add: acceptI1_def)
  have 3: "docAt (orgMembers storeAccepted) ''O1_U2'' =
       Some \<lparr>mem_orgId = ''O1'', mem_uid = ''U2'', mem_email = ''b@x.com'', mem_role = ''staff'',
             mem_status = ''pending_onboarding'', mem_joinedAt = 4,
             mem_fullName = None, mem_phone = None, mem_onboardedAt = None,
             mem_approvedAt = None, mem_approvedBy = None\<rparr>"
    using c by (auto simp: acceptI1_def U2_def storeInvited_def inviteDoc_def memberKey_def docAt_def)
  from run_acceptI1 1 2 3 show ?thesis by simp
qed

text \<open>
  The membership write and the invitation delete are two store operations, and nothing
  ties the read of the invitation to them. Two calls of \<open>U2\<close> on \<open>I1\<close> that alternate their
  store operations both read the invitation before either deletes it, and both end in
  success: neither receives \<open>NotFound\<close>. And after the first call alone has read and
  written (a crash before its delete), the Membership of \<open>U2\<close> is in the store while the
  Invitation \<open>I1\<close> is still there.
\<close>

theorem acceptInvite_race_counterexample:
  "acceptInvite_interleaved (acceptI1 U2, 4) (acceptI1 U2, 5)
       [CallA, CallB, CallA, CallB, CallA, CallB] (AI_Start, AI_Start, storeInvited)
     = (AI_Done (Inr ''O1''), AI_Done (Inr ''O1''),
        storeAcme\<lparr>orgMembers :=
          [[''O1_U1''] \<mapsto> ownerDoc ''O1'' ''U1'' ''a@x.com'' 2,
           [''O1_U2''] \<mapsto> memberDoc (inviteDoc ''O1'' ''b@x.com'' ''staff'' ''U1'' 3) ''U2'' ''b@x.com'' 5]\<rparr>)
   \<and> acceptInvite_interleaved (acceptI1 U2, 4) (acceptI1 U2, 5)
       [CallA, CallA] (AI_Start, AI_Start, storeInvited)
     = (AI_MemberWritten [''I1''] (inviteDoc ''O1'' ''b@x.com'' ''staff'' ''U1'' 3), AI_Start,
        storeInvited\<lparr>orgMembers :=
          [[''O1_U1''] \<mapsto> ownerDoc ''O1'' ''U1'' ''a@x.com'' 2,
           [''O1_U2''] \<mapsto> memberDoc (inviteDoc ''O1'' ''b@x.com'' ''staff'' ''U1'' 3) ''U2'' ''b@x.com'' 4]\<rparr>)
   \<and> docAt (invites storeInvited) ''I1'' = Some (inviteDoc ''O1'' ''b@x.com'' ''staff'' ''U1'' 3)"
  by (simp add: acceptI1_def U2_def storeInvited_def storeAcme_def fs_set_def fs_delete_def
      memberKey_def inviteDoc_def docAt_def)

subsection \<open>submitOnboarding\<close>

text \<open>
  Claim C7, as the source has it. For an authenticated caller with no Membership at
  \<open>(orgId, callerUid)\<close>, \<open>submitOnboarding\<close> fails and leaves the whole store as it was:
  nothing is written, and no Membership document is created. The failure is
  \<open>PermissionDenied\<close>, except that an \<open>orgId\<close> for which \<^verbatim>\<open>`${orgId}_${uid}`\<close> is not an
  acceptable document path fails with \<open>Internal\<close>: the source hands the \<open>orgId\<close> to
  \<^verbatim>\<open>doc()\<close> unchecked.
\<close>

theorem submitOnboarding_absent_fails:
  assumes "auth request = Some a"
    and "docAt (orgMembers s) (memberKey (ob_orgId (data request)) (idString (auth_uid a))) = None"
  shows "submitOnboarding request t s
           = (Inl (if fs_doc (memberKey (ob_orgId (data request)) (idString (auth_uid a))) = None
                   then Internal else PermissionDenied), s)"
  using assms by (auto simp: submitOnboarding_def docAt_def Let_def split: option.splits)

theorem submitOnboarding_absent_fails_witness:
  "auth (onboard ''O1'') = Some U2
   \<and> docAt (orgMembers storeInvited) (memberKey ''O1'' ''U2'') = None
   \<and> submitOnboarding (onboard ''O1'') 4 storeInvited = (Inl PermissionDenied, storeInvited)
   \<and> auth (onboard ''O1/x'') = Some U2
   \<and> docAt (orgMembers storeInvited) (memberKey ''O1/x'' ''U2'') = None
   \<and> submitOnboarding (onboard ''O1/x'') 4 storeInvited = (Inl Internal, storeInvited)"
proof -
  have a: "auth (onboard ''O1'') = Some U2" "auth (onboard ''O1/x'') = Some U2"
    by (simp_all add: onboard_def)
  have b: "docAt (orgMembers storeInvited)
             (memberKey (ob_orgId (data (onboard ''O1''))) (idString (auth_uid U2))) = None"
    by (simp add: onboard_def U2_def storeInvited_def storeAcme_def memberKey_def docAt_def)
  have c: "docAt (orgMembers storeInvited)
             (memberKey (ob_orgId (data (onboard ''O1/x''))) (idString (auth_uid U2))) = None"
    by (simp add: onboard_def U2_def memberKey_def docAt_def)
  from submitOnboarding_absent_fails [OF a(1) b, of 4]
    submitOnboarding_absent_fails [OF a(2) c, of 4] a b c
  show ?thesis
    by (simp add: onboard_def U2_def memberKey_def)
qed

text \<open>
  The failure is not always \<open>PermissionDenied\<close>. \<open>U2\<close> has no Membership yet; with the
  \<open>orgId\<close> \<^verbatim>\<open>O1/x\<close> the path \<^verbatim>\<open>O1/x_U2\<close> has two segments, \<^verbatim>\<open>doc()\<close> throws, and the call
  answers \<open>Internal\<close>.
\<close>

theorem submitOnboarding_malformed_orgId_counterexample:
  "auth (onboard ''O1/x'') = Some U2
   \<and> docAt (orgMembers storeInvited) (memberKey ''O1/x'' (idString (auth_uid U2))) = None
   \<and> submitOnboarding (onboard ''O1/x'') 4 storeInvited = (Inl Internal, storeInvited)
   \<and> Internal \<noteq> PermissionDenied"
  by (simp add: submitOnboarding_def onboard_def U2_def memberKey_def docAt_def Let_def)

subsection \<open>approveMember\<close>

text \<open>
  Claim C4. \<open>approveMember\<close> is an update, not an upsert: for a caller who is owner or
  admin of the organization, when there is no Membership document at \<open>(orgId, memberUid)\<close>
  the call fails (the refused path or rejected \<^verbatim>\<open>update\<close> surfaces as \<open>Internal\<close>) and the
  store is left as it was, so no Membership document is created.
\<close>

theorem approveMember_absent_fails:
  assumes "auth request = Some a"
    and "docAt (orgMembers s) (memberKey (am_orgId (data request)) (idString (auth_uid a)))
           = Some requester"
    and "mem_role requester = ''owner'' \<or> mem_role requester = ''admin''"
    and "docAt (orgMembers s) (memberKey (am_orgId (data request)) (am_memberId (data request)))
           = None"
  shows "approveMember request t s = (Inl Internal, s)"
  using assms
  by (auto simp: approveMember_def docAt_def isAdminRole_def fs_update_def Let_def
      split: option.splits)

theorem approveMember_absent_fails_witness:
  "auth (approve U1 ''U9'') = Some U1
   \<and> docAt (orgMembers storeAcme) (memberKey (am_orgId (data (approve U1 ''U9''))) (idString (auth_uid U1)))
       = Some (ownerDoc ''O1'' ''U1'' ''a@x.com'' 2)
   \<and> mem_role (ownerDoc ''O1'' ''U1'' ''a@x.com'' 2) = ''owner''
   \<and> docAt (orgMembers storeAcme)
        (memberKey (am_orgId (data (approve U1 ''U9''))) (am_memberId (data (approve U1 ''U9'')))) = None
   \<and> approveMember (approve U1 ''U9'') 5 storeAcme = (Inl Internal, storeAcme)"
proof -
  have a: "auth (approve U1 ''U9'') = Some U1"
    by (simp add: approve_def)
  have b: "docAt (orgMembers storeAcme)
             (memberKey (am_orgId (data (approve U1 ''U9''))) (idString (auth_uid U1)))
       = Some (ownerDoc ''O1'' ''U1'' ''a@x.com'' 2)"
    by (simp add: approve_def storeAcme_def memberKey_def U1_def docAt_def)
  have c: "mem_role (ownerDoc ''O1'' ''U1'' ''a@x.com'' 2) = ''owner''"
    by (simp add: ownerDoc_def)
  have d: "docAt (orgMembers storeAcme)
        (memberKey (am_orgId (data (approve U1 ''U9''))) (am_memberId (data (approve U1 ''U9'')))) = None"
    by (simp add: approve_def storeAcme_def memberKey_def docAt_def)
  from approveMember_absent_fails [OF a b disjI1 [OF c] d, of 5] a b c d show ?thesis
    by simp
qed

text \<open>
  Claim C9, as the source has it. On a Membership that is already \<open>active\<close>,
  \<open>approveMember\<close> by an owner or admin succeeds and keeps the status \<open>active\<close> and
  every other field except two: it records the approval, setting \<open>approvedAt\<close> to the
  commit time and \<open>approvedBy\<close> to the caller's uid. No other document changes. Repeating
  the call with the same caller and commit time changes nothing further.
\<close>

theorem approveMember_active:
  assumes "auth request = Some a"
    and "docAt (orgMembers s) (memberKey (am_orgId (data request)) (idString (auth_uid a)))
           = Some requester"
    and "mem_role requester = ''owner'' \<or> mem_role requester = ''admin''"
    and "docAt (orgMembers s) (memberKey (am_orgId (data request)) (am_memberId (data request)))
           = Some m"
    and "mem_status m = ''active''"
  shows "approveMember request t s =
           (Inr (),
            s\<lparr>orgMembers := putAt (orgMembers s)
                 (memberKey (am_orgId (data request)) (am_memberId (data request)))
                 (m\<lparr>mem_approvedAt := Some t, mem_approvedBy := Some (idString (auth_uid a))\<rparr>)\<rparr>)
       \<and> approveMember request t (snd (approveMember request t s)) = approveMember request t s"
proof -
  let ?uid = "idString (auth_uid a)"
  let ?m' = "m\<lparr>mem_approvedAt := Some t, mem_approvedBy := Some ?uid\<rparr>"
  from assms(2) obtain rq where rq: "fs_doc (memberKey (am_orgId (data request)) ?uid) = Some rq"
    and rqm: "orgMembers s rq = Some requester"
    by (auto simp: docAt_def split: option.splits)
  from assms(4) obtain k where k: "fs_doc (memberKey (am_orgId (data request)) (am_memberId (data request))) = Some k"
    and km: "orgMembers s k = Some m"
    by (auto simp: docAt_def split: option.splits)
  let ?s' = "s\<lparr>orgMembers := (orgMembers s)(k \<mapsto> ?m')\<rparr>"
  have patch: "approvalPatch t ?uid m = ?m'"
    using assms(5) by (simp add: approvalPatch_def)
  have first: "approveMember request t s = (Inr (), ?s')"
    using assms(1,3) rq rqm k km patch
    by (auto simp: approveMember_def isAdminRole_def fs_update_def Let_def)
  have again: "approvalPatch t ?uid ?m' = ?m'"
    using assms(5) by (simp add: approvalPatch_def)
  obtain r' where req': "orgMembers ?s' rq = Some r'"
    and role': "mem_role r' = ''owner'' \<or> mem_role r' = ''admin''"
    using assms(3) rqm km by (cases "rq = k") auto
  have "approveMember request t ?s' = (Inr (), ?s')"
    using assms(1) rq k req' role' again
    by (auto simp: approveMember_def isAdminRole_def fs_update_def Let_def)
  with first k show ?thesis by (simp add: putAt_def)
qed

theorem approveMember_active_witness:
  "auth (approve U1 ''U2'') = Some U1
   \<and> docAt (orgMembers storeOnboarded) (memberKey ''O1'' ''U1'') = Some (ownerDoc ''O1'' ''U1'' ''a@x.com'' 2)
   \<and> mem_role (ownerDoc ''O1'' ''U1'' ''a@x.com'' 2) = ''owner''
   \<and> docAt (orgMembers storeOnboarded) (memberKey ''O1'' ''U2'') = Some bobOnboarded
   \<and> mem_status bobOnboarded = ''active''
   \<and> approveMember (approve U1 ''U2'') 6 storeOnboarded =
        (Inr (),
         storeOnboarded\<lparr>orgMembers := (orgMembers storeOnboarded)
           ([''O1_U2''] \<mapsto> bobOnboarded\<lparr>mem_approvedAt := Some 6, mem_approvedBy := Some ''U1''\<rparr>)\<rparr>)"
proof -
  have a: "auth (approve U1 ''U2'') = Some U1"
    by (simp add: approve_def)
  have b: "docAt (orgMembers storeOnboarded)
             (memberKey (am_orgId (data (approve U1 ''U2''))) (idString (auth_uid U1)))
             = Some (ownerDoc ''O1'' ''U1'' ''a@x.com'' 2)"
    by (simp add: approve_def storeOnboarded_def memberKey_def U1_def docAt_def)
  have c: "mem_role (ownerDoc ''O1'' ''U1'' ''a@x.com'' 2) = ''owner''"
    by (simp add: ownerDoc_def)
  have d: "docAt (orgMembers storeOnboarded)
             (memberKey (am_orgId (data (approve U1 ''U2''))) (am_memberId (data (approve U1 ''U2''))))
             = Some bobOnboarded"
    using storeOnboarded_bob by (simp add: approve_def memberKey_def docAt_def)
  have e: "mem_status bobOnboarded = ''active''"
    by (simp add: bobOnboarded_def)
  from approveMember_active [OF a b disjI1 [OF c] d e, of 6] a b c d e show ?thesis
    by (simp add: approve_def memberKey_def U1_def putAt_def)
qed

text \<open>
  The call is not a no-op on an active Membership. \<open>U2\<close> is active after onboarding and has
  never been approved; after \<open>U1\<close> approves \<open>U2\<close> the document carries \<open>approvedAt\<close> and
  \<open>approvedBy\<close>, and so differs from the one before.
\<close>

theorem approveMember_active_counterexample:
  "docAt (orgMembers storeOnboarded) ''O1_U2'' = Some bobOnboarded
   \<and> mem_status bobOnboarded = ''active''
   \<and> fst (approveMember (approve U1 ''U2'') 6 storeOnboarded) = Inr ()
   \<and> docAt (orgMembers (snd (approveMember (approve U1 ''U2'') 6 storeOnboarded))) ''O1_U2''
       = Some (bobOnboarded\<lparr>mem_approvedAt := Some 6, mem_approvedBy := Some ''U1''\<rparr>)
   \<and> docAt (orgMembers (snd (approveMember (approve U1 ''U2'') 6 storeOnboarded))) ''O1_U2''
       \<noteq> docAt (orgMembers storeOnboarded) ''O1_U2''"
proof -
  have run: "approveMember (approve U1 ''U2'') 6 storeOnboarded =
        (Inr (),
         storeOnboarded\<lparr>orgMembers := (orgMembers storeOnboarded)
           ([''O1_U2''] \<mapsto> approvalPatch 6 ''U1'' bobOnboarded)\<rparr>)"
    using storeOnboarded_bob
    by (simp add: approveMember_def approve_def U1_def memberKey_def isAdminRole_def
        fs_update_def storeOnboarded_def ownerDoc_def Let_def)
  have patch: "approvalPatch 6 ''U1'' bobOnboarded
                 = bobOnboarded\<lparr>mem_approvedAt := Some 6, mem_approvedBy := Some ''U1''\<rparr>"
    by (simp add: approvalPatch_def bobOnboarded_def)
  have diff: "bobOnboarded\<lparr>mem_approvedAt := Some 6, mem_approvedBy := Some ''U1''\<rparr> \<noteq> bobOnboarded"
    by (simp add: bobOnboarded_def)
  from run patch diff storeOnboarded_bob show ?thesis
    by (simp add: bobOnboarded_def docAt_def)
qed

subsection \<open>Stored roles\<close>











end
